theory Spec2Isabelle
  imports Main "HOL-Library.Multiset"
begin

section \<open>Data model\<close>

text \<open>
  The matchmaker of \<^verbatim>\<open>src/src/matchmaker.py\<close> works on the entities of the
  \<^verbatim>\<open>entities\<close> module: offers, matches and read-only reference data (charity,
  country, currency, localized instructions). Every entity is a record whose fields are
  the attributes the matchmaker reads.

  A \<^verbatim>\<open>datetime\<close> is the number of microseconds since \<^verbatim>\<open>datetime.min\<close>
  (0001-01-01 00:00:00; microseconds are the resolution of Python's datetime), a
  \<^verbatim>\<open>timedelta\<close> a number of microseconds. \<^verbatim>\<open>datetime.max\<close> is
  9999-12-31 23:59:59.999999, the last microsecond of day 3652059. Amounts are never
  computed with by the matchmaker: it hands them to the currency collaborator and into
  the mail templates, so they are plain integers here.
\<close>

definition timedelta_days :: "int \<Rightarrow> int" where
  "timedelta_days d = d * 86400000000"

definition datetime_max :: int where
  "datetime_max = 315537897599999999"

record currency =
  iso :: string

record country =
  country_ident :: int
  country_name :: string
  currency :: currency

record charity =
  charity_ident :: int
  charity_name :: string

record charity_in_country =
  instructions :: string

text \<open>
  An offer carries both the foreign keys \<^verbatim>\<open>charity_id\<close>, \<^verbatim>\<open>country_id\<close> (read by
  \<^verbatim>\<open>_is_good_match\<close>) and the resolved reference objects \<^verbatim>\<open>charity\<close>, \<^verbatim>\<open>country\<close>
  (read by the mail functions); reference data is never mutated by the matchmaker.
\<close>

record offer =
  offer_id :: int
  email :: string
  amount :: int
  charity_id :: int
  country_id :: int
  charity :: charity
  country :: country
  offer_secret :: string
  confirmed :: bool
  created_ts :: int

text \<open>
  The agreement flags are Python's nullable booleans: \<open>None\<close> is undecided,
  \<open>Some True\<close> agreed, \<open>Some False\<close> declined.
\<close>

record match =
  match_id :: int
  match_token :: string
  new_offer_id :: int
  old_offer_id :: int
  new_agrees :: "bool option"
  old_agrees :: "bool option"
  match_created_ts :: int

section \<open>The compatibility rule\<close>

text \<open>
  \<^verbatim>\<open>Matchmaker._is_good_match\<close> (lines 55-71): three guarded early returns, then
  \<^verbatim>\<open>return True\<close>. The logging calls have no effect on the result.
\<close>

definition is_good_match :: "offer \<Rightarrow> offer \<Rightarrow> bool" where
  "is_good_match offer1 offer2 =
     (if charity_id offer1 = charity_id offer2 then False
      else if country_id offer1 = country_id offer2 then False
      else if email offer1 = email offer2 then False
      else True)"

section \<open>Collaborators, the world and effects\<close>

text \<open>
  A mail as handed to \<^verbatim>\<open>Mail.send\<close>: the subject, the two templates, the
  substitution dictionary (in the order of the dictionary literal) and the addressees.
  Rendering the templates is the mail collaborator's work. A single address
  (\<^verbatim>\<open>to=my_offer.email\<close>) is the one-element list.
\<close>

datatype repl = Text string | Number int

record mail =
  subject :: string
  text_template :: string
  html_template :: string
  replacements :: "(string \<times> repl) list"
  mail_to :: "string list"

text \<open>
  The effects of a run on its collaborators: a deleted offer row, a deleted match row, a
  created match row, a mail handed to the mail collaborator.
\<close>

datatype event =
    OfferDeleted int
  | MatchDeleted int
  | MatchCreated match
  | MailSent mail

text \<open>
  The world a run acts on: the offer and match tables (in the order \<^verbatim>\<open>get_all\<close>
  lists them), the journal of all effects performed so far in program order, the clock
  read by \<^verbatim>\<open>utcnow\<close>, and the number of secrets drawn so far.
\<close>

record world =
  offer_table :: "offer list"
  match_table :: "match list"
  journal :: "event list"
  clock :: int
  secrets_drawn :: nat

text \<open>
  The matchmaker catches no exception, so a failing collaborator ends the run. The outcome
  of a piece of the run is either the world it leaves, or the exception together with the
  world as the effects performed before the failure left it.
\<close>

datatype error = StorageError | MailError | AttributeError | OverflowError

text \<open>
  \<^verbatim>\<open>datetime + timedelta\<close> raises \<^verbatim>\<open>OverflowError\<close> when the sum is not a
  datetime, that is before \<^verbatim>\<open>datetime.min\<close> or after \<^verbatim>\<open>datetime.max\<close>.
\<close>

definition datetime_add :: "int \<Rightarrow> int \<Rightarrow> error + int" where
  "datetime_add t d =
     (if 0 \<le> t + d \<and> t + d \<le> datetime_max then Inr (t + d) else Inl OverflowError)"

datatype outcome = Done world | Raised error world

text \<open>
  The collaborators, as parameters: currency conversion, the lookup of localized
  instructions, the query for match candidates, the secret generator (the \<open>n\<close>-th
  secret drawn), and which effects fail when attempted.
\<close>

record env =
  convert :: "int \<Rightarrow> string \<Rightarrow> string \<Rightarrow> int"
  by_charity_and_country_id :: "int \<Rightarrow> int \<Rightarrow> charity_in_country option"
  get_match_candidates :: "world \<Rightarrow> offer list"
  secret_source :: "nat \<Rightarrow> string"
  fails :: "event \<Rightarrow> bool"

fun apply_event :: "event \<Rightarrow> world \<Rightarrow> world" where
  "apply_event (OfferDeleted i) w =
     w\<lparr>offer_table := filter (\<lambda>x. offer_id x \<noteq> i) (offer_table w),
       journal := journal w @ [OfferDeleted i]\<rparr>"
| "apply_event (MatchDeleted i) w =
     w\<lparr>match_table := filter (\<lambda>x. match_id x \<noteq> i) (match_table w),
       journal := journal w @ [MatchDeleted i]\<rparr>"
| "apply_event (MatchCreated m) w =
     w\<lparr>match_table := match_table w @ [m],
       journal := journal w @ [MatchCreated m]\<rparr>"
| "apply_event (MailSent m) w =
     w\<lparr>journal := journal w @ [MailSent m]\<rparr>"

fun error_of :: "event \<Rightarrow> error" where
  "error_of (MailSent m) = MailError"
| "error_of e = StorageError"

definition perform :: "env \<Rightarrow> event \<Rightarrow> world \<Rightarrow> outcome" where
  "perform e ev w = (if fails e ev then Raised (error_of ev) w else Done (apply_event ev w))"

text \<open>Sequencing: an exception skips everything that follows.\<close>

fun then_do :: "outcome \<Rightarrow> (world \<Rightarrow> outcome) \<Rightarrow> outcome" where
  "then_do (Done w) f = f w"
| "then_do (Raised err w) f = Raised err w"

text \<open>A \<^verbatim>\<open>for\<close> loop over a list that was computed before the loop starts.\<close>

fun for_each :: "('a \<Rightarrow> world \<Rightarrow> outcome) \<Rightarrow> 'a list \<Rightarrow> world \<Rightarrow> outcome" where
  "for_each body [] w = Done w"
| "for_each body (x # xs) w = then_do (body x w) (for_each body xs)"

section \<open>The entity store\<close>

text \<open>
  Modelled from the spec: the \<^verbatim>\<open>entities\<close> module is not among the sources. Section 6
  gives its contract: \<^verbatim>\<open>get_all(predicate)\<close> returns the list of the entities that
  satisfy the predicate, \<^verbatim>\<open>delete(entity)\<close> removes the entity's row, and
  \<^verbatim>\<open>create(fields)\<close> adds a row; by section 4.4 a new match row is
  (undecided, undecided) and references both offers. Rows are identified by their
  identifier. A new match gets an identifier no row has, and the clock as its creation
  timestamp.

  The predicate handed to \<^verbatim>\<open>get_all\<close> is Python code and may raise; \<open>get_all\<close>
  asks it about the rows in table order, and the first exception leaves
  \<^verbatim>\<open>get_all\<close> with no list returned. \<open>offer_get_all\<close> and
  \<open>match_get_all_raising\<close> are \<^verbatim>\<open>Offer.get_all\<close> and \<^verbatim>\<open>Match.get_all\<close>
  for such a predicate; \<open>match_get_all\<close> is \<^verbatim>\<open>Match.get_all\<close> for a predicate
  that raises nothing, where it is the filter.
\<close>

fun get_all :: "('a \<Rightarrow> error + bool) \<Rightarrow> 'a list \<Rightarrow> error + 'a list" where
  "get_all p [] = Inr []"
| "get_all p (x # xs) =
     (case p x of
        Inl err \<Rightarrow> Inl err
      | Inr keep \<Rightarrow>
          (case get_all p xs of
             Inl err \<Rightarrow> Inl err
           | Inr ys \<Rightarrow> Inr (if keep then x # ys else ys)))"

definition offer_get_all :: "(offer \<Rightarrow> error + bool) \<Rightarrow> world \<Rightarrow> error + offer list" where
  "offer_get_all p w = get_all p (offer_table w)"

definition match_get_all_raising :: "(match \<Rightarrow> error + bool) \<Rightarrow> world \<Rightarrow> error + match list" where
  "match_get_all_raising p w = get_all p (match_table w)"

definition match_get_all :: "(match \<Rightarrow> bool) \<Rightarrow> world \<Rightarrow> match list" where
  "match_get_all p w = filter p (match_table w)"

definition offer_delete :: "env \<Rightarrow> offer \<Rightarrow> world \<Rightarrow> outcome" where
  "offer_delete e x w = perform e (OfferDeleted (offer_id x)) w"

definition match_delete :: "env \<Rightarrow> match \<Rightarrow> world \<Rightarrow> outcome" where
  "match_delete e x w = perform e (MatchDeleted (match_id x)) w"

definition fresh_match_id :: "world \<Rightarrow> int" where
  "fresh_match_id w = fold max (map match_id (match_table w)) 0 + 1"

definition new_match :: "world \<Rightarrow> string \<Rightarrow> int \<Rightarrow> int \<Rightarrow> match" where
  "new_match w secret new_id old_id =
     \<lparr>match_id = fresh_match_id w, match_token = secret,
      new_offer_id = new_id, old_offer_id = old_id,
      new_agrees = None, old_agrees = None,
      match_created_ts = clock w\<rparr>"

definition match_create :: "env \<Rightarrow> string \<Rightarrow> int \<Rightarrow> int \<Rightarrow> world \<Rightarrow> outcome" where
  "match_create e secret new_id old_id w =
     perform e (MatchCreated (new_match w secret new_id old_id)) w"

text \<open>
  Modelled from the spec: \<^verbatim>\<open>match.old_offer\<close> and \<^verbatim>\<open>match.new_offer\<close> follow the
  match's references into the offer table (section 3: a match holds a reference to its
  old and to its new offer); a dangling reference yields \<^verbatim>\<open>None\<close>.
\<close>

definition offer_by_id :: "world \<Rightarrow> int \<Rightarrow> offer option" where
  "offer_by_id w i = List.find (\<lambda>x. offer_id x = i) (offer_table w)"

definition match_old_offer :: "world \<Rightarrow> match \<Rightarrow> offer option" where
  "match_old_offer w m = offer_by_id w (old_offer_id m)"

definition match_new_offer :: "world \<Rightarrow> match \<Rightarrow> offer option" where
  "match_new_offer w m = offer_by_id w (new_offer_id m)"

text \<open>
  Modelled from the spec: \<^verbatim>\<open>donationswap.create_secret\<close> produces an opaque token
  (section 6); the \<open>n\<close>-th call returns the \<open>n\<close>-th token of the generator.
\<close>

definition create_secret :: "env \<Rightarrow> world \<Rightarrow> string \<times> world" where
  "create_secret e w = (secret_source e (secrets_drawn w), w\<lparr>secrets_drawn := Suc (secrets_drawn w)\<rparr>)"

section \<open>Cleanup\<close>

text \<open>
  Python's truth value of a nullable boolean, and the value of \<^verbatim>\<open>a and b\<close>.
\<close>

fun truthy :: "bool option \<Rightarrow> bool" where
  "truthy None = False"
| "truthy (Some b) = b"

definition py_and :: "bool option \<Rightarrow> bool option \<Rightarrow> bool option" where
  "py_and a b = (if truthy a then b else a)"

text \<open>
  The comparison \<^verbatim>\<open>created_ts + delta < now\<close> of the filters: the sum may raise.
\<close>

definition older_than :: "int \<Rightarrow> int \<Rightarrow> int \<Rightarrow> error + bool" where
  "older_than ts delta now =
     (case datetime_add ts delta of
        Inl err \<Rightarrow> Inl err
      | Inr t \<Rightarrow> Inr (t < now))"

text \<open>
  The four filters of \<^verbatim>\<open>Matchmaker.clean\<close> (lines 36, 40, 44, 48). In Python
  \<^verbatim>\<open>and\<close> binds tighter than \<^verbatim>\<open>or\<close>, and both evaluate their right operand
  only when the left one does not decide: the sum is computed for an unconfirmed offer
  (line 36), for a match whose \<^verbatim>\<open>new_agrees\<close> is decided and whose
  \<^verbatim>\<open>old_agrees\<close> is undecided (line 44), and for a match both parties agreed to
  (line 48). The filter of line 40 adds nothing and cannot raise.
\<close>

definition unconfirmed_expired :: "int \<Rightarrow> offer \<Rightarrow> error + bool" where
  "unconfirmed_expired now x =
     (if \<not> confirmed x then older_than (created_ts x) (timedelta_days 2) now
      else Inr False)"

definition declined :: "match \<Rightarrow> bool" where
  "declined x = (new_agrees x = Some False \<or> old_agrees x = Some False)"

definition unapproved_expired :: "int \<Rightarrow> match \<Rightarrow> error + bool" where
  "unapproved_expired now x =
     (if new_agrees x = None then Inr True
      else if old_agrees x = None then older_than (match_created_ts x) (timedelta_days 7) now
      else Inr False)"

definition approved_expired :: "int \<Rightarrow> match \<Rightarrow> error + bool" where
  "approved_expired now x =
     (if new_agrees x = Some True then
        (if old_agrees x = Some True
         then older_than (match_created_ts x) (timedelta_days 28) now
         else Inr False)
      else Inr False)"

text \<open>
  The four loops of \<^verbatim>\<open>Matchmaker.clean\<close> (lines 35-49), each over the list its
  \<^verbatim>\<open>get_all\<close> returns when the loop starts; an exception of the filter ends the
  pass before the loop deletes anything. The method does not read
  \<^verbatim>\<open>self._dry_run\<close>.
\<close>

definition clean_unconfirmed_offers :: "env \<Rightarrow> int \<Rightarrow> world \<Rightarrow> outcome" where
  "clean_unconfirmed_offers e now w =
     (case offer_get_all (unconfirmed_expired now) w of
        Inl err \<Rightarrow> Raised err w
      | Inr expired \<Rightarrow> for_each (offer_delete e) expired w)"

definition clean_declined_matches :: "env \<Rightarrow> world \<Rightarrow> outcome" where
  "clean_declined_matches e w =
     for_each (match_delete e) (match_get_all declined w) w"

definition clean_unapproved_matches :: "env \<Rightarrow> int \<Rightarrow> world \<Rightarrow> outcome" where
  "clean_unapproved_matches e now w =
     (case match_get_all_raising (unapproved_expired now) w of
        Inl err \<Rightarrow> Raised err w
      | Inr unapproved \<Rightarrow> for_each (match_delete e) unapproved w)"

definition clean_approved_matches :: "env \<Rightarrow> int \<Rightarrow> world \<Rightarrow> outcome" where
  "clean_approved_matches e now w =
     (case match_get_all_raising (approved_expired now) w of
        Inl err \<Rightarrow> Raised err w
      | Inr approved_old \<Rightarrow> for_each (match_delete e) approved_old w)"

text \<open>
  The stores on which no filter of the cleanup overflows: every creation timestamp is a
  datetime at least 2 days (offers) or 28 days (matches) before \<^verbatim>\<open>datetime.max\<close>,
  that is no later than 9999-12-29 and 9999-12-03.
\<close>

definition timestamps_in_range :: "world \<Rightarrow> bool" where
  "timestamps_in_range w =
     ((\<forall>x \<in> set (offer_table w).
         0 \<le> created_ts x \<and> created_ts x + timedelta_days 2 \<le> datetime_max)
      \<and> (\<forall>x \<in> set (match_table w).
         0 \<le> match_created_ts x \<and> match_created_ts x + timedelta_days 28 \<le> datetime_max))"

definition clean :: "env \<Rightarrow> world \<Rightarrow> outcome" where
  "clean e w =
     (let now = clock w in
      then_do (then_do (then_do
        (clean_unconfirmed_offers e now w)
        (clean_declined_matches e))
        (clean_unapproved_matches e now))
        (clean_approved_matches e now))"

section \<open>The matching engine\<close>

text \<open>
  The \<^verbatim>\<open>while\<close> loop of \<^verbatim>\<open>Matchmaker.find_matches\<close> (lines 83-89):
  \<^verbatim>\<open>offers.pop()\<close> takes the last offer of the list, the \<^verbatim>\<open>for\<close> loop finds the
  first compatible offer of the rest, and \<^verbatim>\<open>offers.remove(offer2)\<close> removes its first
  occurrence.
\<close>

function find_matches_while :: "offer list \<Rightarrow> (offer \<times> offer) list \<Rightarrow> (offer \<times> offer) list" where
  "find_matches_while offers matches =
     (if offers = [] then matches
      else (case List.find (is_good_match (last offers)) (butlast offers) of
              None \<Rightarrow> find_matches_while (butlast offers) matches
            | Some offer2 \<Rightarrow>
                find_matches_while (remove1 offer2 (butlast offers))
                  (matches @ [(last offers, offer2)])))"
  by pat_completeness auto
termination
  by (relation "measure (\<lambda>(offers, matches). length offers)")
     (auto simp: length_remove1 find_Some_iff)

declare find_matches_while.simps [simp del]

definition find_matches :: "env \<Rightarrow> world \<Rightarrow> (offer \<times> offer) list" where
  "find_matches e w = find_matches_while (get_match_candidates e w) []"

text \<open>The offers of a list of pairs, in order.\<close>

definition paired_offers :: "(offer \<times> offer) list \<Rightarrow> offer list" where
  "paired_offers ps = concat (map (\<lambda>(a, b). [a, b]) ps)"

section \<open>Notifications\<close>

text \<open>
  \<^verbatim>\<open>Matchmaker._send_mail_about_match\<close> (lines 95-122): the conversion, the
  substitution dictionary, the mail, and the send.
\<close>

definition match_replacements :: "env \<Rightarrow> offer \<Rightarrow> offer \<Rightarrow> string \<Rightarrow> (string \<times> repl) list" where
  "match_replacements e my_offer their_offer match_secret =
     (let your_amount_in_their_currency =
            convert e (amount their_offer) (iso (currency (country their_offer)))
              (iso (currency (country my_offer)))
      in [(''{%YOUR_COUNTRY%}'', Text (country_name (country my_offer))),
          (''{%YOUR_CHARITY%}'', Text (charity_name (charity my_offer))),
          (''{%YOUR_AMOUNT%}'', Number (amount my_offer)),
          (''{%YOUR_CURRENCY%}'', Text (iso (currency (country my_offer)))),
          (''{%THEIR_COUNTRY%}'', Text (country_name (country their_offer))),
          (''{%THEIR_CHARITY%}'', Text (charity_name (charity their_offer))),
          (''{%THEIR_AMOUNT%}'', Number (amount their_offer)),
          (''{%THEIR_CURRENCY%}'', Text (iso (currency (country their_offer)))),
          (''{%THEIR_AMOUNT_CONVERTED%}'', Number your_amount_in_their_currency),
          (''{%SECRET%}'', Text (offer_secret my_offer @ match_secret))])"

definition match_mail :: "env \<Rightarrow> offer \<Rightarrow> offer \<Rightarrow> string \<Rightarrow> mail" where
  "match_mail e my_offer their_offer match_secret =
     \<lparr>subject = ''We may have found a matching donation for you'',
      text_template = ''match-suggested-email.txt'',
      html_template = ''match-suggested-email.html'',
      replacements = match_replacements e my_offer their_offer match_secret,
      mail_to = [email my_offer]\<rparr>"

definition send_mail_about_match :: "env \<Rightarrow> offer \<Rightarrow> offer \<Rightarrow> string \<Rightarrow> world \<Rightarrow> outcome" where
  "send_mail_about_match e my_offer their_offer match_secret w =
     perform e (MailSent (match_mail e my_offer their_offer match_secret)) w"

text \<open>
  \<^verbatim>\<open>Matchmaker._send_mail_about_deal\<close> (lines 144-189): the two conversions, the two
  lookups of localized instructions with their fallback, the substitution dictionary, the
  mail, and the send.
\<close>

definition no_instructions :: string where
  "no_instructions = ''Sorry, there are no instructions available (yet).''"

definition old_instructions :: "env \<Rightarrow> offer \<Rightarrow> offer \<Rightarrow> string" where
  "old_instructions e old_offer new_offer =
     (case by_charity_and_country_id e (charity_ident (charity new_offer))
             (country_ident (country new_offer)) of
        Some tmp \<Rightarrow> instructions tmp
      | None \<Rightarrow> no_instructions)"

definition new_instructions :: "env \<Rightarrow> offer \<Rightarrow> offer \<Rightarrow> string" where
  "new_instructions e old_offer new_offer =
     (case by_charity_and_country_id e (charity_ident (charity old_offer))
             (country_ident (country new_offer)) of
        Some tmp \<Rightarrow> instructions tmp
      | None \<Rightarrow> no_instructions)"

definition deal_replacements :: "env \<Rightarrow> offer \<Rightarrow> offer \<Rightarrow> (string \<times> repl) list" where
  "deal_replacements e old_offer new_offer =
     (let old_amount_in_new_currency =
            convert e (amount old_offer) (iso (currency (country old_offer)))
              (iso (currency (country new_offer)));
          new_amount_in_old_currency =
            convert e (amount new_offer) (iso (currency (country new_offer)))
              (iso (currency (country old_offer)))
      in [(''{%OLD_COUNTRY%}'', Text (country_name (country old_offer))),
          (''{%OLD_CHARITY%}'', Text (charity_name (charity old_offer))),
          (''{%OLD_AMOUNT%}'', Number (amount old_offer)),
          (''{%OLD_CURRENCY%}'', Text (iso (currency (country old_offer)))),
          (''{%OLD_EMAIL%}'', Text (email old_offer)),
          (''{%OLD_AMOUNT_CONVERTED%}'', Number old_amount_in_new_currency),
          (''{%OLD_INSTRUCTIONS%}'', Text (old_instructions e old_offer new_offer)),
          (''{%NEW_COUNTRY%}'', Text (country_name (country new_offer))),
          (''{%NEW_CHARITY%}'', Text (charity_name (charity new_offer))),
          (''{%NEW_AMOUNT%}'', Number (amount new_offer)),
          (''{%NEW_CURRENCY%}'', Text (iso (currency (country new_offer)))),
          (''{%NEW_EMAIL%}'', Text (email new_offer)),
          (''{%NEW_AMOUNT_CONVERTED%}'', Number new_amount_in_old_currency),
          (''{%NEW_INSTRUCTIONS%}'', Text (new_instructions e old_offer new_offer))])"

definition deal_mail :: "env \<Rightarrow> offer \<Rightarrow> offer \<Rightarrow> mail" where
  "deal_mail e old_offer new_offer =
     \<lparr>subject = ''Here is your match!'',
      text_template = ''match-approved-email.txt'',
      html_template = ''match-approved-email.html'',
      replacements = deal_replacements e old_offer new_offer,
      mail_to = [email old_offer, email new_offer]\<rparr>"

definition send_mail_about_deal :: "env \<Rightarrow> offer \<Rightarrow> offer \<Rightarrow> world \<Rightarrow> outcome" where
  "send_mail_about_deal e old_offer new_offer w =
     perform e (MailSent (deal_mail e old_offer new_offer)) w"

section \<open>The match lifecycle\<close>

text \<open>
  The body of the loop of \<^verbatim>\<open>Matchmaker.process_found_matches\<close> (lines 126-142), and
  the loop.
\<close>

definition process_found_match :: "env \<Rightarrow> bool \<Rightarrow> offer \<Rightarrow> offer \<Rightarrow> world \<Rightarrow> outcome" where
  "process_found_match e dry_run offer1 offer2 w =
     (if dry_run then Done w
      else
        (let (match_secret, w1) = create_secret e w;
             (old_offer, new_offer) =
               (if created_ts offer1 < created_ts offer2 then (offer1, offer2)
                else (offer2, offer1))
         in then_do (then_do
              (match_create e match_secret (offer_id new_offer) (offer_id old_offer) w1)
              (send_mail_about_match e old_offer new_offer match_secret))
              (send_mail_about_match e new_offer old_offer match_secret)))"

definition process_found_matches :: "env \<Rightarrow> bool \<Rightarrow> (offer \<times> offer) list \<Rightarrow> world \<Rightarrow> outcome" where
  "process_found_matches e dry_run matches w =
     for_each (\<lambda>(offer1, offer2). process_found_match e dry_run offer1 offer2) matches w"

text \<open>
  The filter, the body of the loop and the loop of
  \<^verbatim>\<open>Matchmaker.process_approved_matches\<close> (lines 191-202). Reading an attribute of a
  dangling offer reference raises before anything is sent.
\<close>

definition approved :: "match \<Rightarrow> bool" where
  "approved x = truthy (py_and (new_agrees x) (old_agrees x))"

definition process_approved_match :: "env \<Rightarrow> bool \<Rightarrow> match \<Rightarrow> world \<Rightarrow> outcome" where
  "process_approved_match e dry_run m w =
     (if dry_run then Done w
      else
        (case match_old_offer w m of
           None \<Rightarrow> Raised AttributeError w
         | Some old_offer \<Rightarrow>
             (case match_new_offer w m of
                None \<Rightarrow> Raised AttributeError w
              | Some new_offer \<Rightarrow>
                  then_do (send_mail_about_deal e old_offer new_offer w) (match_delete e m))))"

definition process_approved_matches :: "env \<Rightarrow> bool \<Rightarrow> world \<Rightarrow> outcome" where
  "process_approved_matches e dry_run w =
     for_each (process_approved_match e dry_run) (match_get_all approved w) w"

section \<open>The batch entry point\<close>

text \<open>
  \<^verbatim>\<open>main\<close> (lines 204-218): the matchmaker is built with
  \<^verbatim>\<open>dry_run=not args.doit\<close>, then cleanup, matching, propose and finalize run in
  this order.
\<close>

definition main :: "env \<Rightarrow> bool \<Rightarrow> world \<Rightarrow> outcome" where
  "main e doit w =
     (let dry_run = \<not> doit in
      then_do (then_do
        (clean e w)
        (\<lambda>w1. process_found_matches e dry_run (find_matches e w1) w1))
        (process_approved_matches e dry_run))"

section \<open>Example data\<close>

text \<open>The three offers of the spec's matching scenario (section 8).\<close>

definition mk_offer :: "int \<Rightarrow> string \<Rightarrow> int \<Rightarrow> int \<Rightarrow> bool \<Rightarrow> int \<Rightarrow> offer" where
  "mk_offer i mail_address ch co conf ts =
     \<lparr>offer_id = i, email = mail_address, amount = 100,
      charity_id = ch, country_id = co,
      charity = \<lparr>charity_ident = ch, charity_name = ''charity''\<rparr>,
      country = \<lparr>country_ident = co, country_name = ''country'',
                 currency = \<lparr>iso = ''EUR''\<rparr>\<rparr>,
      offer_secret = ''s'', confirmed = conf, created_ts = ts\<rparr>"

definition offer_A :: offer where
  "offer_A = mk_offer 1 ''x'' 1 1 True 0"

definition offer_B :: offer where
  "offer_B = mk_offer 2 ''y'' 2 2 True 0"

definition offer_C :: offer where
  "offer_C = mk_offer 3 ''z'' 1 3 True 0"

text \<open>A fourth offer, compatible with none of the three.\<close>

definition offer_D :: offer where
  "offer_D = mk_offer 4 ''x'' 2 3 True 0"

text \<open>
  Collaborators that never fail: conversion at par, no localized instructions on record,
  every confirmed offer a match candidate, a constant secret.
\<close>

definition example_env :: env where
  "example_env =
     \<lparr>convert = (\<lambda>a from_iso to_iso. a),
      by_charity_and_country_id = (\<lambda>c k. None),
      get_match_candidates = (\<lambda>w. filter confirmed (offer_table w)),
      secret_source = (\<lambda>n. ''token''),
      fails = (\<lambda>ev. False)\<rparr>"

definition example_world :: world where
  "example_world =
     \<lparr>offer_table = [offer_D, offer_A, offer_B, offer_C], match_table = [], journal = [],
      clock = 0, secrets_drawn = 0\<rparr>"

text \<open>
  A world for the cleanup at clock 3000000000000: a confirmed offer created at 0, an
  unconfirmed offer created 48 hours minus one second before the clock, an unconfirmed
  offer created 48 hours plus one second before it; a match created 6 days 23 hours
  before the clock and one created 7 days 1 hour before it, both with the old party
  undecided and the new party agreed, and a match created at the clock with the new party
  undecided.
\<close>

definition offer_young :: offer where
  "offer_young = mk_offer 5 ''p'' 5 5 False 2827201000000"

definition offer_overdue :: offer where
  "offer_overdue = mk_offer 6 ''q'' 6 6 False 2827199000000"

definition mk_match :: "int \<Rightarrow> int \<Rightarrow> int \<Rightarrow> bool option \<Rightarrow> bool option \<Rightarrow> int \<Rightarrow> match" where
  "mk_match i new_id old_id na oa ts =
     \<lparr>match_id = i, match_token = ''t'', new_offer_id = new_id, old_offer_id = old_id,
      new_agrees = na, old_agrees = oa, match_created_ts = ts\<rparr>"

definition match_6d23h :: match where
  "match_6d23h = mk_match 1 2 1 (Some True) None 2398800000000"

definition match_7d1h :: match where
  "match_7d1h = mk_match 2 2 1 (Some True) None 2391600000000"

definition match_new_undecided :: match where
  "match_new_undecided = mk_match 3 2 1 None (Some True) 3000000000000"

text \<open>
  An unconfirmed offer created on 9999-12-30 at 00:00, for which line 36 overflows, a
  match of the same date with the old party undecided and the new party agreed, for
  which line 44 overflows, and a store that holds them in front of the overdue offer and
  the stale match.
\<close>

definition offer_far :: offer where
  "offer_far = mk_offer 8 ''f'' 8 8 False 315537724800000000"

definition match_far :: match where
  "match_far = mk_match 9 2 1 (Some True) None 315537724800000000"

definition far_world :: world where
  "far_world =
     \<lparr>offer_table = [offer_far, offer_overdue], match_table = [match_far, match_7d1h],
      journal = [], clock = 3000000000000, secrets_drawn = 0\<rparr>"

definition cleanup_world :: world where
  "cleanup_world =
     \<lparr>offer_table = [offer_A, offer_young, offer_overdue],
      match_table = [match_6d23h, match_7d1h, match_new_undecided],
      journal = [], clock = 3000000000000, secrets_drawn = 0\<rparr>"

text \<open>
  An offer created four days after \<open>offer_A\<close>; a match of the two that both parties
  agreed to; a world holding them; collaborators whose storage fails on deleting that
  match; and collaborators with two localized instructions on record.
\<close>

definition offer_late :: offer where
  "offer_late = mk_offer 7 ''late'' 7 7 True 345600000000"

definition match_agreed :: match where
  "match_agreed = mk_match 7 7 1 (Some True) (Some True) 345600000000"

definition deal_world :: world where
  "deal_world =
     \<lparr>offer_table = [offer_A, offer_late], match_table = [match_agreed], journal = [],
      clock = 400000000000, secrets_drawn = 0\<rparr>"

definition failing_delete_env :: env where
  "failing_delete_env = example_env\<lparr>fails := (\<lambda>ev. ev = MatchDeleted 7)\<rparr>"

definition instructions_env :: env where
  "instructions_env =
     example_env\<lparr>by_charity_and_country_id :=
       (\<lambda>c k. if c = 2 \<and> k = 2 then Some \<lparr>instructions = ''charity 2 in country 2''\<rparr>
              else if c = 1 \<and> k = 2 then Some \<lparr>instructions = ''charity 1 in country 2''\<rparr>
              else None)\<rparr>"

section \<open>Properties of the compatibility rule\<close>

text \<open>
  Claim C4. For every pair of offers the compatibility predicate is false exactly when
  the two offers have the same charity identifier, or the same country identifier, or
  the same owner email, and true otherwise; it is symmetric; and the pledge amounts are
  not compared: changing either amount never changes the answer.
\<close>

theorem is_good_match_iff:
  "(is_good_match a b \<longleftrightarrow>
      \<not> (charity_id a = charity_id b \<or> country_id a = country_id b \<or> email a = email b))
   \<and> is_good_match a b = is_good_match b a
   \<and> is_good_match (a\<lparr>amount := x\<rparr>) (b\<lparr>amount := y\<rparr>) = is_good_match a b"
  by (auto simp: is_good_match_def)

theorem is_good_match_iff_witness:
  "is_good_match offer_A offer_B \<and> is_good_match offer_B offer_A
   \<and> \<not> is_good_match offer_A offer_C \<and> \<not> is_good_match offer_C offer_A
   \<and> is_good_match (offer_A\<lparr>amount := 1\<rparr>) (offer_B\<lparr>amount := 1000000\<rparr>)"
proof -
  have facts:
    "charity_id offer_A \<noteq> charity_id offer_B" "country_id offer_A \<noteq> country_id offer_B"
    "email offer_A \<noteq> email offer_B" "charity_id offer_A = charity_id offer_C"
    by (simp_all add: offer_A_def offer_B_def offer_C_def mk_offer_def)
  show ?thesis
    using is_good_match_iff [of offer_A offer_B 1 1000000]
          is_good_match_iff [of offer_A offer_C 1 1] facts
    by blast
qed

section \<open>Properties of the matching engine\<close>

lemma is_good_match_sym: "is_good_match a b = is_good_match b a"
  by (auto simp: is_good_match_def)

lemma find_matches_while_nil: "find_matches_while [] acc = acc"
  by (simp add: find_matches_while.simps)

lemma find_matches_while_none:
  "offers \<noteq> [] \<Longrightarrow> List.find (is_good_match (last offers)) (butlast offers) = None \<Longrightarrow>
   find_matches_while offers acc = find_matches_while (butlast offers) acc"
  by (subst find_matches_while.simps) simp

lemma find_matches_while_some:
  "offers \<noteq> [] \<Longrightarrow> List.find (is_good_match (last offers)) (butlast offers) = Some offer2 \<Longrightarrow>
   find_matches_while offers acc =
     find_matches_while (remove1 offer2 (butlast offers)) (acc @ [(last offers, offer2)])"
  by (subst find_matches_while.simps) simp

lemma find_Some_mem: "List.find p xs = Some x \<Longrightarrow> x \<in> set xs \<and> p x"
  by (auto simp: find_Some_iff)

lemma shorter_after_pair:
  assumes "offers \<noteq> []" "x \<in> set (butlast offers)"
  shows "length (remove1 x (butlast offers)) < length offers"
  using assms by (simp add: length_remove1)

lemma find_matches_while_acc:
  "find_matches_while offers acc = acc @ find_matches_while offers []"
proof (induction "length offers" arbitrary: offers acc rule: less_induct)
  case less
  show ?case
  proof (cases "offers = []")
    case True
    then show ?thesis by (simp add: find_matches_while_nil)
  next
    case False
    show ?thesis
    proof (cases "List.find (is_good_match (last offers)) (butlast offers)")
      case None
      have "length (butlast offers) < length offers" using False by simp
      have "find_matches_while offers acc = find_matches_while (butlast offers) acc"
        using False None by (rule find_matches_while_none)
      moreover have "find_matches_while offers [] = find_matches_while (butlast offers) []"
        using False None by (rule find_matches_while_none)
      ultimately show ?thesis
        using less [OF \<open>length (butlast offers) < length offers\<close>, of acc] by simp
    next
      case (Some offer2)
      let ?rest = "remove1 offer2 (butlast offers)"
      have short: "length ?rest < length offers"
        using False Some by (simp add: shorter_after_pair find_Some_mem)
      have "find_matches_while offers acc = find_matches_while ?rest (acc @ [(last offers, offer2)])"
        using False Some by (rule find_matches_while_some)
      then have a: "find_matches_while offers acc = (acc @ [(last offers, offer2)]) @ find_matches_while ?rest []"
        using less [OF short, of "acc @ [(last offers, offer2)]"] by simp
      have "find_matches_while offers [] = find_matches_while ?rest ([] @ [(last offers, offer2)])"
        using False Some by (rule find_matches_while_some)
      then have b: "find_matches_while offers [] = [(last offers, offer2)] @ find_matches_while ?rest []"
        using less [OF short, of "[(last offers, offer2)]"] by simp
      show ?thesis unfolding a b by simp
    qed
  qed
qed

lemma find_matches_while_good:
  "\<forall>(a, b) \<in> set (find_matches_while offers []). is_good_match a b"
proof (induction "length offers" arbitrary: offers rule: less_induct)
  case less
  show ?case
  proof (cases "offers = []")
    case True
    then show ?thesis by (simp add: find_matches_while_nil)
  next
    case False
    show ?thesis
    proof (cases "List.find (is_good_match (last offers)) (butlast offers)")
      case None
      have "length (butlast offers) < length offers" using False by simp
      from less [OF this] False None show ?thesis
        by (simp add: find_matches_while_none)
    next
      case (Some offer2)
      let ?rest = "remove1 offer2 (butlast offers)"
      have short: "length ?rest < length offers"
        using False Some by (simp add: shorter_after_pair find_Some_mem)
      have eq: "find_matches_while offers [] = (last offers, offer2) # find_matches_while ?rest []"
        using find_matches_while_some [OF False Some, of "[]"]
              find_matches_while_acc [of ?rest "[(last offers, offer2)]"] by simp
      show ?thesis
        using less [OF short] find_Some_mem [OF Some] by (simp add: eq)
    qed
  qed
qed

lemma distinct_mset_sub:
  assumes "mset xs \<subseteq># mset ys" and "distinct ys"
  shows "distinct xs"
proof -
  have "count (mset xs) a \<le> 1" for a
  proof -
    have "count (mset xs) a \<le> count (mset ys) a"
      using assms(1) by (rule mset_subset_eq_count)
    also have "\<dots> \<le> 1"
      using assms(2) by (simp add: distinct_count_atmost_1)
    finally show ?thesis .
  qed
  then show ?thesis
    by (metis count_mset_0_iff distinct_count_atmost_1 le_antisym less_one linorder_not_le)
qed

lemma find_matches_while_mset:
  "mset (paired_offers (find_matches_while offers [])) \<subseteq># mset offers"
proof (induction "length offers" arbitrary: offers rule: less_induct)
  case less
  show ?case
  proof (cases "offers = []")
    case True
    then show ?thesis by (simp add: find_matches_while_nil paired_offers_def)
  next
    case False
    then have split: "mset offers = mset (butlast offers) + {#last offers#}"
      by (metis append_butlast_last_id mset_append mset_single_iff_right)
    show ?thesis
    proof (cases "List.find (is_good_match (last offers)) (butlast offers)")
      case None
      have "length (butlast offers) < length offers" using False by simp
      from less [OF this] have "mset (paired_offers (find_matches_while (butlast offers) [])) \<subseteq># mset (butlast offers)" .
      then have "mset (paired_offers (find_matches_while (butlast offers) [])) \<subseteq># mset offers"
        unfolding split by (rule subset_mset.add_increasing2 [OF empty_le])
      then show ?thesis using False None
        by (simp add: find_matches_while_none)
    next
      case (Some offer2)
      let ?rest = "remove1 offer2 (butlast offers)"
      have short: "length ?rest < length offers"
        using False Some by (simp add: shorter_after_pair find_Some_mem)
      have eq: "find_matches_while offers [] = (last offers, offer2) # find_matches_while ?rest []"
        using find_matches_while_some [OF False Some, of "[]"]
              find_matches_while_acc [of ?rest "[(last offers, offer2)]"] by simp
      have mem: "offer2 \<in># mset (butlast offers)" using find_Some_mem [OF Some] by simp
      have "mset (paired_offers (find_matches_while ?rest [])) \<subseteq># mset (butlast offers) - {#offer2#}"
        using less [OF short] by simp
      then have "{#offer2#} + mset (paired_offers (find_matches_while ?rest [])) \<subseteq># mset (butlast offers)"
        using mem by (metis insert_DiffM mset_subset_eq_mono_add_left_cancel add_mset_add_single union_commute)
      then show ?thesis
        using split by (simp add: eq paired_offers_def)
    qed
  qed
qed



lemma paired_offers_mem:
  "x \<in> set (paired_offers ps) \<longleftrightarrow> (\<exists>y. (x, y) \<in> set ps \<or> (y, x) \<in> set ps)"
  by (induction ps) (auto simp: paired_offers_def)

text \<open>
  Claim C3. For every list of match candidates (database rows, so with pairwise distinct
  identifiers), the pairs returned by \<^verbatim>\<open>find_matches\<close> are all compatible, no
  offer appears in more than one of them (the offers of all pairs, listed in order, have
  pairwise distinct identifiers), the paired offers are taken from the candidates, each
  at most as often as it is listed there, and a
  candidate with no compatible counterpart among the candidates is in no pair. The
  function is total: it returns a list for every input and raises nothing.
\<close>

theorem find_matches_pairs:
  assumes "distinct (map offer_id (get_match_candidates e w))"
  shows "(\<forall>(a, b) \<in> set (find_matches e w). is_good_match a b)
     \<and> distinct (map offer_id (paired_offers (find_matches e w)))
     \<and> mset (paired_offers (find_matches e w)) \<subseteq># mset (get_match_candidates e w)
     \<and> set (paired_offers (find_matches e w)) \<subseteq> set (get_match_candidates e w)
     \<and> (\<forall>x \<in> set (get_match_candidates e w).
          (\<forall>y \<in> set (get_match_candidates e w). \<not> is_good_match x y)
            \<longrightarrow> x \<notin> set (paired_offers (find_matches e w)))"
proof -
  let ?cs = "get_match_candidates e w"
  let ?ps = "find_matches e w"
  have good: "\<forall>(a, b) \<in> set ?ps. is_good_match a b"
    unfolding find_matches_def by (rule find_matches_while_good)
  have sub: "mset (paired_offers ?ps) \<subseteq># mset ?cs"
    unfolding find_matches_def by (rule find_matches_while_mset)
  then have "mset (map offer_id (paired_offers ?ps)) \<subseteq># mset (map offer_id ?cs)"
    using image_mset_subseteq_mono [of "mset (paired_offers ?ps)" "mset ?cs" offer_id]
    by (simp only: mset_map)
  then have dist: "distinct (map offer_id (paired_offers ?ps))"
    using assms by (rule distinct_mset_sub)
  have incl: "set (paired_offers ?ps) \<subseteq> set ?cs"
    using set_mset_mono [OF sub] by simp
  have lonely: "x \<notin> set (paired_offers ?ps)"
    if "x \<in> set ?cs" and none: "\<forall>y \<in> set ?cs. \<not> is_good_match x y" for x
  proof
    assume "x \<in> set (paired_offers ?ps)"
    then obtain y where y: "(x, y) \<in> set ?ps \<or> (y, x) \<in> set ?ps"
      by (auto simp: paired_offers_mem)
    then have "y \<in> set (paired_offers ?ps)"
      by (auto simp: paired_offers_mem)
    then have "y \<in> set ?cs" using incl by blast
    moreover have "is_good_match x y"
      using y good is_good_match_sym by blast
    ultimately show False using none by blast
  qed
  show ?thesis using good dist sub incl lonely by blast
qed

theorem find_matches_pairs_witness:
  "distinct (map offer_id (get_match_candidates example_env example_world))
   \<and> find_matches example_env example_world = [(offer_C, offer_B)]
   \<and> is_good_match offer_C offer_B
   \<and> offer_D \<in> set (get_match_candidates example_env example_world)
   \<and> offer_D \<notin> set (paired_offers (find_matches example_env example_world))
   \<and> distinct (map offer_id (paired_offers (find_matches example_env example_world)))"
proof -
  have cs: "get_match_candidates example_env example_world = [offer_D, offer_A, offer_B, offer_C]"
    by (simp add: example_env_def example_world_def offer_A_def offer_B_def offer_C_def
          offer_D_def mk_offer_def)
  have d: "distinct (map offer_id (get_match_candidates example_env example_world))"
    unfolding cs by (simp add: offer_A_def offer_B_def offer_C_def offer_D_def mk_offer_def)
  have ne: "offer_D \<noteq> offer_B" "offer_A \<noteq> offer_B"
    by (simp_all add: offer_A_def offer_B_def offer_D_def mk_offer_def)
  have g: "\<not> is_good_match offer_C offer_D" "\<not> is_good_match offer_C offer_A"
      "is_good_match offer_C offer_B" "\<not> is_good_match offer_A offer_D"
    by (simp_all add: is_good_match_def offer_A_def offer_B_def offer_C_def offer_D_def
          mk_offer_def)
  have run: "find_matches example_env example_world = [(offer_C, offer_B)]"
    unfolding find_matches_def cs using ne g
    by (simp add: find_matches_while.simps)
  have lonely: "\<forall>y \<in> set (get_match_candidates example_env example_world). \<not> is_good_match offer_D y"
    unfolding cs
    by (simp add: is_good_match_def offer_A_def offer_B_def offer_C_def offer_D_def mk_offer_def)
  have mem: "offer_D \<in> set (get_match_candidates example_env example_world)"
    unfolding cs by simp
  from find_matches_pairs [OF d]
  have good: "\<forall>(a, b) \<in> set (find_matches example_env example_world). is_good_match a b"
    and dist: "distinct (map offer_id (paired_offers (find_matches example_env example_world)))"
    and out: "\<forall>x \<in> set (get_match_candidates example_env example_world).
          (\<forall>y \<in> set (get_match_candidates example_env example_world). \<not> is_good_match x y)
            \<longrightarrow> x \<notin> set (paired_offers (find_matches example_env example_world))"
    by blast+
  have "is_good_match offer_C offer_B" using good unfolding run by simp
  moreover have "offer_D \<notin> set (paired_offers (find_matches example_env example_world))"
    using out mem lonely by blast
  ultimately show ?thesis using d run mem dist by blast
qed

section \<open>Properties of the cleanup\<close>

lemma perform_ok: "\<not> fails e ev \<Longrightarrow> perform e ev w = Done (apply_event ev w)"
  by (simp add: perform_def)

lemma for_each_match_delete:
  assumes nf: "\<And>ev. \<not> fails e ev"
  shows "for_each (match_delete e) ms w =
     Done (w\<lparr>match_table := filter (\<lambda>x. match_id x \<notin> match_id ` set ms) (match_table w),
             journal := journal w @ map (\<lambda>m. MatchDeleted (match_id m)) ms\<rparr>)"
proof (induction ms arbitrary: w)
  case Nil
  show ?case by simp
next
  case (Cons m ms)
  have conj_commute_filter:
    "(\<lambda>x. match_id x \<notin> match_id ` set ms \<and> match_id x \<noteq> match_id m) =
     (\<lambda>x. match_id x \<noteq> match_id m \<and> match_id x \<notin> match_id ` set ms)"
    by auto
  have step: "match_delete e m w = Done (apply_event (MatchDeleted (match_id m)) w)"
    by (simp only: match_delete_def perform_ok [OF nf])
  have "for_each (match_delete e) (m # ms) w =
          for_each (match_delete e) ms (apply_event (MatchDeleted (match_id m)) w)"
    by (simp only: for_each.simps step then_do.simps)
  also note Cons.IH
  finally show ?case
    by (simp add: conj_commute_filter)
qed

lemma for_each_offer_delete:
  assumes nf: "\<And>ev. \<not> fails e ev"
  shows "for_each (offer_delete e) os w =
     Done (w\<lparr>offer_table := filter (\<lambda>x. offer_id x \<notin> offer_id ` set os) (offer_table w),
             journal := journal w @ map (\<lambda>x. OfferDeleted (offer_id x)) os\<rparr>)"
proof (induction os arbitrary: w)
  case Nil
  show ?case by simp
next
  case (Cons m ms)
  have conj_commute_filter:
    "(\<lambda>x. offer_id x \<notin> offer_id ` set ms \<and> offer_id x \<noteq> offer_id m) =
     (\<lambda>x. offer_id x \<noteq> offer_id m \<and> offer_id x \<notin> offer_id ` set ms)"
    by auto
  have step: "offer_delete e m w = Done (apply_event (OfferDeleted (offer_id m)) w)"
    by (simp only: offer_delete_def perform_ok [OF nf])
  have "for_each (offer_delete e) (m # ms) w =
          for_each (offer_delete e) ms (apply_event (OfferDeleted (offer_id m)) w)"
    by (simp only: for_each.simps step then_do.simps)
  also note Cons.IH
  finally show ?case
    by (simp add: conj_commute_filter)
qed

lemma filter_by_key:
  assumes "distinct (map f xs)"
  shows "filter (\<lambda>x. f x \<notin> f ` set (filter p xs)) xs = filter (\<lambda>x. \<not> p x) xs"
proof (rule filter_cong [OF refl])
  fix x assume x: "x \<in> set xs"
  have inj: "inj_on f (set xs)" using assms by (simp add: distinct_map)
  show "(f x \<notin> f ` set (filter p xs)) = (\<not> p x)"
  proof
    assume "f x \<notin> f ` set (filter p xs)"
    then show "\<not> p x" using x by auto
  next
    assume np: "\<not> p x"
    show "f x \<notin> f ` set (filter p xs)"
    proof
      assume "f x \<in> f ` set (filter p xs)"
      then obtain y where "y \<in> set xs" "p y" "f x = f y" by auto
      then have "x = y" using inj x by (auto dest: inj_onD)
      then show False using np \<open>p y\<close> by simp
    qed
  qed
qed

text \<open>A filter that raises on no row of the table returns the rows it accepts.\<close>

lemma get_all_pure:
  "(\<And>x. x \<in> set xs \<Longrightarrow> p x = Inr (q x)) \<Longrightarrow> get_all p xs = Inr (filter q xs)"
  by (induction xs) simp_all

lemma get_all_raises:
  "(\<And>x. x \<in> set xs \<Longrightarrow> p x = Inr (q x)) \<Longrightarrow> p y = Inl err \<Longrightarrow>
   get_all p (xs @ y # ys) = Inl err"
  by (induction xs) simp_all

lemma older_than_in_range:
  "0 \<le> ts + delta \<Longrightarrow> ts + delta \<le> datetime_max \<Longrightarrow>
   older_than ts delta now = Inr (ts + delta < now)"
  by (simp add: older_than_def datetime_add_def)

lemma older_than_overflow:
  "datetime_max < ts + delta \<Longrightarrow> older_than ts delta now = Inl OverflowError"
  by (simp add: older_than_def datetime_add_def)

lemma unconfirmed_expired_in_range:
  assumes "0 \<le> created_ts x" and "created_ts x + timedelta_days 2 \<le> datetime_max"
  shows "unconfirmed_expired now x =
     Inr (\<not> confirmed x \<and> created_ts x + timedelta_days 2 < now)"
  using assms by (simp add: unconfirmed_expired_def older_than_in_range timedelta_days_def)

lemma unapproved_expired_in_range:
  assumes "0 \<le> match_created_ts x" and "match_created_ts x + timedelta_days 28 \<le> datetime_max"
  shows "unapproved_expired now x =
     Inr (new_agrees x = None
          \<or> old_agrees x = None \<and> match_created_ts x + timedelta_days 7 < now)"
  using assms by (auto simp: unapproved_expired_def older_than_in_range timedelta_days_def)

lemma approved_expired_in_range:
  assumes "0 \<le> match_created_ts x" and "match_created_ts x + timedelta_days 28 \<le> datetime_max"
  shows "approved_expired now x =
     Inr (new_agrees x = Some True \<and> old_agrees x = Some True
          \<and> match_created_ts x + timedelta_days 28 < now)"
  using assms by (simp add: approved_expired_def older_than_in_range timedelta_days_def)

lemma in_range_offers:
  "timestamps_in_range w \<Longrightarrow> x \<in> set (offer_table w) \<Longrightarrow>
   0 \<le> created_ts x \<and> created_ts x + timedelta_days 2 \<le> datetime_max"
  by (simp add: timestamps_in_range_def)

lemma in_range_matches:
  "timestamps_in_range w \<Longrightarrow> x \<in> set (match_table w) \<Longrightarrow>
   0 \<le> match_created_ts x \<and> match_created_ts x + timedelta_days 28 \<le> datetime_max"
  by (simp add: timestamps_in_range_def)

text \<open>
  One loop of the pass over the matches a filter selects, when the filter raises on no
  row: the loop completes, the offers are untouched and the matches left are rows of the
  table; with distinct identifiers they are the rows the filter rejects.
\<close>

lemma match_sweep:
  assumes nf: "\<And>ev. \<not> fails e ev" and d: "distinct (map match_id (match_table w))"
    and pq: "\<And>x. x \<in> set (match_table w) \<Longrightarrow> p x = Inr (q x)"
  shows "(case match_get_all_raising p w of
            Inl err \<Rightarrow> Raised err w
          | Inr ms \<Rightarrow> for_each (match_delete e) ms w) =
     Done (w\<lparr>match_table := filter (\<lambda>x. \<not> q x) (match_table w),
             journal := journal w @ map (\<lambda>x. MatchDeleted (match_id x)) (filter q (match_table w))\<rparr>)"
proof -
  have "match_get_all_raising p w = Inr (filter q (match_table w))"
    unfolding match_get_all_raising_def by (rule get_all_pure [OF pq])
  then show ?thesis
    by (simp only: sum.case for_each_match_delete [OF nf] filter_by_key [OF d])
qed

lemma match_sweep_tables:
  assumes nf: "\<And>ev. \<not> fails e ev"
    and pq: "\<And>x. x \<in> set (match_table w) \<Longrightarrow> p x = Inr (q x)"
  shows "\<exists>w'. (case match_get_all_raising p w of
            Inl err \<Rightarrow> Raised err w
          | Inr ms \<Rightarrow> for_each (match_delete e) ms w) = Done w'
        \<and> offer_table w' = offer_table w
        \<and> set (match_table w') \<subseteq> set (match_table w)"
proof -
  have "match_get_all_raising p w = Inr (filter q (match_table w))"
    unfolding match_get_all_raising_def by (rule get_all_pure [OF pq])
  then show ?thesis
    by (auto simp: for_each_match_delete [OF nf])
qed

lemma declined_sweep_tables:
  assumes nf: "\<And>ev. \<not> fails e ev"
  shows "\<exists>w'. clean_declined_matches e w = Done w'
        \<and> offer_table w' = offer_table w
        \<and> set (match_table w') \<subseteq> set (match_table w)"
  by (auto simp: clean_declined_matches_def for_each_match_delete [OF nf])

lemma offer_sweep:
  assumes nf: "\<And>ev. \<not> fails e ev" and d: "distinct (map offer_id (offer_table w))"
    and pq: "\<And>x. x \<in> set (offer_table w) \<Longrightarrow> p x = Inr (q x)"
  shows "(case offer_get_all p w of
            Inl err \<Rightarrow> Raised err w
          | Inr os \<Rightarrow> for_each (offer_delete e) os w) =
     Done (w\<lparr>offer_table := filter (\<lambda>x. \<not> q x) (offer_table w),
             journal := journal w @ map (\<lambda>x. OfferDeleted (offer_id x)) (filter q (offer_table w))\<rparr>)"
proof -
  have "offer_get_all p w = Inr (filter q (offer_table w))"
    unfolding offer_get_all_def by (rule get_all_pure [OF pq])
  then show ?thesis
    by (simp only: sum.case for_each_offer_delete [OF nf] filter_by_key [OF d])
qed

lemma offer_sweep_tables:
  assumes nf: "\<And>ev. \<not> fails e ev"
    and pq: "\<And>x. x \<in> set (offer_table w) \<Longrightarrow> p x = Inr (q x)"
  shows "\<exists>w'. (case offer_get_all p w of
            Inl err \<Rightarrow> Raised err w
          | Inr os \<Rightarrow> for_each (offer_delete e) os w) = Done w'
        \<and> match_table w' = match_table w"
proof -
  have "offer_get_all p w = Inr (filter q (offer_table w))"
    unfolding offer_get_all_def by (rule get_all_pure [OF pq])
  then show ?thesis
    by (simp add: for_each_offer_delete [OF nf])
qed

lemma clean_offer_table:
  assumes nf: "\<And>ev. \<not> fails e ev" and d: "distinct (map offer_id (offer_table w))"
    and r: "timestamps_in_range w"
  shows "\<exists>w'. clean e w = Done w' \<and>
           offer_table w' =
             filter (\<lambda>x. \<not> (\<not> confirmed x \<and> created_ts x + timedelta_days 2 < clock w))
               (offer_table w)"
proof -
  let ?now = "clock w"
  have po: "unconfirmed_expired ?now x =
      Inr (\<not> confirmed x \<and> created_ts x + timedelta_days 2 < ?now)"
    if "x \<in> set (offer_table w)" for x
    using in_range_offers [OF r that] by (simp add: unconfirmed_expired_in_range)
  have w1: "clean_unconfirmed_offers e ?now w =
      Done (w\<lparr>offer_table :=
                filter (\<lambda>x. \<not> (\<not> confirmed x \<and> created_ts x + timedelta_days 2 < ?now))
                  (offer_table w),
              journal := journal w @ map (\<lambda>x. OfferDeleted (offer_id x))
                (filter (\<lambda>x. \<not> confirmed x \<and> created_ts x + timedelta_days 2 < ?now)
                   (offer_table w))\<rparr>)"
    (is "_ = Done ?w1")
    unfolding clean_unconfirmed_offers_def
    by (rule offer_sweep [where q = "\<lambda>x. \<not> confirmed x \<and> created_ts x + timedelta_days 2 < ?now",
          OF nf d po])
  have m1: "match_table ?w1 = match_table w" by simp
  obtain w2 where w2: "clean_declined_matches e ?w1 = Done w2" "offer_table w2 = offer_table ?w1"
      "set (match_table w2) \<subseteq> set (match_table ?w1)"
    using declined_sweep_tables [OF nf] by blast
  have p7: "unapproved_expired ?now x =
      Inr (new_agrees x = None \<or> old_agrees x = None \<and> match_created_ts x + timedelta_days 7 < ?now)"
    if "x \<in> set (match_table w2)" for x
  proof -
    from that w2(3) m1 have "x \<in> set (match_table w)" by auto
    from in_range_matches [OF r this] show ?thesis by (simp add: unapproved_expired_in_range)
  qed
  obtain w3 where w3: "clean_unapproved_matches e ?now w2 = Done w3" "offer_table w3 = offer_table w2"
      "set (match_table w3) \<subseteq> set (match_table w2)"
    unfolding clean_unapproved_matches_def
    using match_sweep_tables [where w = w2 and p = "unapproved_expired ?now"
            and q = "\<lambda>x. new_agrees x = None
                      \<or> old_agrees x = None \<and> match_created_ts x + timedelta_days 7 < ?now",
            OF nf p7]
    by blast
  have p28: "approved_expired ?now x =
      Inr (new_agrees x = Some True \<and> old_agrees x = Some True
           \<and> match_created_ts x + timedelta_days 28 < ?now)"
    if "x \<in> set (match_table w3)" for x
  proof -
    from that w3(3) w2(3) m1 have "x \<in> set (match_table w)" by auto
    from in_range_matches [OF r this] show ?thesis by (simp add: approved_expired_in_range)
  qed
  obtain w4 where w4: "clean_approved_matches e ?now w3 = Done w4" "offer_table w4 = offer_table w3"
    unfolding clean_approved_matches_def
    using match_sweep_tables [where w = w3 and p = "approved_expired ?now"
            and q = "\<lambda>x. new_agrees x = Some True \<and> old_agrees x = Some True
                      \<and> match_created_ts x + timedelta_days 28 < ?now",
            OF nf p28]
    by blast
  have "clean e w = Done w4"
    by (simp only: clean_def Let_def w1 w2 w3 w4 then_do.simps)
  moreover have "offer_table w4 = offer_table ?w1"
    using w2 w3 w4 by simp
  ultimately show ?thesis by simp
qed

text \<open>
  Claim C6. When no collaborator fails, the offer rows have pairwise distinct
  identifiers, and every creation timestamp of the store is far enough from
  \<^verbatim>\<open>datetime.max\<close> for the sums of the filters to be datetimes, the cleanup pass
  completes and leaves exactly the offers that are not (unconfirmed and created more than
  48 hours, that is 172800000000 microseconds, before the clock, strictly): an offer is
  deleted exactly when it is unconfirmed and its creation time plus 48 hours is strictly
  earlier than now. So an unconfirmed offer created 48 hours minus one second ago stays,
  one created 48 hours plus one second ago goes, and a confirmed offer is never deleted
  by the pass.
\<close>

theorem clean_deletes_unconfirmed_offers:
  assumes "\<forall>ev. \<not> fails e ev" and "distinct (map offer_id (offer_table w))"
    and "timestamps_in_range w"
  shows "\<exists>w'. clean e w = Done w' \<and>
           offer_table w' =
             filter (\<lambda>x. \<not> (\<not> confirmed x \<and> created_ts x + 172800000000 < clock w))
               (offer_table w)"
  using clean_offer_table [of e w] assms by (simp add: timedelta_days_def)

theorem clean_deletes_unconfirmed_offers_witness:
  "\<exists>w'. clean example_env cleanup_world = Done w' \<and> offer_table w' = [offer_A, offer_young]"
proof -
  have nf: "\<forall>ev. \<not> fails example_env ev"
    by (simp add: example_env_def)
  have d: "distinct (map offer_id (offer_table cleanup_world))"
    by (simp add: cleanup_world_def offer_A_def offer_young_def offer_overdue_def mk_offer_def)
  have r: "timestamps_in_range cleanup_world"
    by (simp add: timestamps_in_range_def cleanup_world_def offer_A_def offer_young_def
          offer_overdue_def mk_offer_def match_6d23h_def match_7d1h_def
          match_new_undecided_def mk_match_def timedelta_days_def datetime_max_def)
  have "filter (\<lambda>x. \<not> (\<not> confirmed x \<and> created_ts x + 172800000000 < clock cleanup_world))
          (offer_table cleanup_world) = [offer_A, offer_young]"
    by (simp add: cleanup_world_def offer_A_def offer_young_def offer_overdue_def mk_offer_def)
  then show ?thesis
    using clean_deletes_unconfirmed_offers [OF nf d r] by simp
qed

text \<open>
  Where a sum is not a datetime the pass raises and the loop deletes nothing: with an
  unconfirmed offer created on 9999-12-30 in front of it, the overdue offer is not
  deleted, and with a half-agreed match of that date in front of it, the stale match is
  not deleted.
\<close>

lemma clean_overflow_example:
  "clean example_env far_world = Raised OverflowError far_world"
  by (simp add: clean_def clean_unconfirmed_offers_def offer_get_all_def
        unconfirmed_expired_def older_than_def datetime_add_def datetime_max_def
        timedelta_days_def far_world_def offer_far_def mk_offer_def)

lemma clean_unapproved_overflow_example:
  "clean_unapproved_matches example_env 3000000000000 far_world =
     Raised OverflowError far_world"
  by (simp add: clean_unapproved_matches_def match_get_all_raising_def
        unapproved_expired_def older_than_def datetime_add_def datetime_max_def
        timedelta_days_def far_world_def match_far_def mk_match_def)

lemma match_sweep_table:
  assumes nf: "\<And>ev. \<not> fails e ev" and d: "distinct (map match_id (match_table w))"
    and pq: "\<And>x. x \<in> set (match_table w) \<Longrightarrow> p x = Inr (q x)"
  shows "\<exists>w'. (case match_get_all_raising p w of
            Inl err \<Rightarrow> Raised err w
          | Inr ms \<Rightarrow> for_each (match_delete e) ms w) = Done w'
        \<and> match_table w' = filter (\<lambda>x. \<not> q x) (match_table w)"
  using match_sweep [where q = q, OF nf d pq] by simp

lemma declined_sweep_table:
  assumes nf: "\<And>ev. \<not> fails e ev" and d: "distinct (map match_id (match_table w))"
  shows "\<exists>w'. clean_declined_matches e w = Done w'
        \<and> match_table w' = filter (\<lambda>x. \<not> declined x) (match_table w)"
proof -
  have "clean_declined_matches e w =
      Done (w\<lparr>match_table := filter (\<lambda>x. \<not> declined x) (match_table w),
              journal := journal w @ map (\<lambda>x. MatchDeleted (match_id x))
                (filter declined (match_table w))\<rparr>)"
    by (simp only: clean_declined_matches_def match_get_all_def for_each_match_delete [OF nf]
          filter_by_key [OF d])
  then show ?thesis by simp
qed

lemma clean_match_table:
  assumes nf: "\<And>ev. \<not> fails e ev" and d: "distinct (map match_id (match_table w))"
    and r: "timestamps_in_range w"
  shows "\<exists>w'. clean e w = Done w' \<and>
           match_table w' =
             filter (\<lambda>x. \<not> declined x
                \<and> \<not> (new_agrees x = None
                     \<or> old_agrees x = None \<and> match_created_ts x + timedelta_days 7 < clock w)
                \<and> \<not> (new_agrees x = Some True \<and> old_agrees x = Some True
                     \<and> match_created_ts x + timedelta_days 28 < clock w)) (match_table w)"
proof -
  let ?now = "clock w"
  let ?q7 = "\<lambda>x. new_agrees x = None
                \<or> old_agrees x = None \<and> match_created_ts x + timedelta_days 7 < ?now"
  let ?q28 = "\<lambda>x. new_agrees x = Some True \<and> old_agrees x = Some True
                \<and> match_created_ts x + timedelta_days 28 < ?now"
  have po: "unconfirmed_expired ?now x =
      Inr (\<not> confirmed x \<and> created_ts x + timedelta_days 2 < ?now)"
    if "x \<in> set (offer_table w)" for x
    using in_range_offers [OF r that] by (simp add: unconfirmed_expired_in_range)
  obtain w1 where w1: "clean_unconfirmed_offers e ?now w = Done w1"
      "match_table w1 = match_table w"
    unfolding clean_unconfirmed_offers_def
    using offer_sweep_tables [where w = w and p = "unconfirmed_expired ?now"
            and q = "\<lambda>x. \<not> confirmed x \<and> created_ts x + timedelta_days 2 < ?now",
            OF nf po]
    by blast
  have d1: "distinct (map match_id (match_table w1))"
    using d w1 by simp
  obtain w2 where w2: "clean_declined_matches e w1 = Done w2"
      "match_table w2 = filter (\<lambda>x. \<not> declined x) (match_table w1)"
    using declined_sweep_table [OF nf d1] by blast
  have d2: "distinct (map match_id (match_table w2))"
    using d1 w2 by (simp add: distinct_map_filter)
  have p7: "unapproved_expired ?now x = Inr (?q7 x)" if "x \<in> set (match_table w2)" for x
  proof -
    from that have "x \<in> set (match_table w)" using w1 w2 by simp
    from in_range_matches [OF r this] show ?thesis by (simp add: unapproved_expired_in_range)
  qed
  obtain w3 where w3: "clean_unapproved_matches e ?now w2 = Done w3"
      "match_table w3 = filter (\<lambda>x. \<not> ?q7 x) (match_table w2)"
    unfolding clean_unapproved_matches_def
    using match_sweep_table [where q = ?q7, OF nf d2 p7] by blast
  have d3: "distinct (map match_id (match_table w3))"
    using d2 w3 by (simp add: distinct_map_filter)
  have p28: "approved_expired ?now x = Inr (?q28 x)" if "x \<in> set (match_table w3)" for x
  proof -
    from that have "x \<in> set (match_table w)" using w1 w2 w3 by simp
    from in_range_matches [OF r this] show ?thesis by (simp add: approved_expired_in_range)
  qed
  obtain w4 where w4: "clean_approved_matches e ?now w3 = Done w4"
      "match_table w4 = filter (\<lambda>x. \<not> ?q28 x) (match_table w3)"
    unfolding clean_approved_matches_def
    using match_sweep_table [where q = ?q28, OF nf d3 p28] by blast
  have "clean e w = Done w4"
    by (simp only: clean_def Let_def w1(1) w2(1) w3(1) w4(1) then_do.simps)
  moreover have "match_table w4 =
             filter (\<lambda>x. \<not> declined x \<and> \<not> ?q7 x \<and> \<not> ?q28 x) (match_table w)"
    by (simp add: w1 w2 w3 w4)
  ultimately show ?thesis by blast
qed

text \<open>
  Claim C2. When no collaborator fails, the match rows have pairwise distinct
  identifiers, and every creation timestamp of the store is far enough from
  \<^verbatim>\<open>datetime.max\<close> for the sums of the filters to be datetimes, the third loop of
  the cleanup pass (the one for unapproved matches) deletes exactly the matches whose
  \<^verbatim>\<open>new_agrees\<close> is undecided, or whose \<^verbatim>\<open>old_agrees\<close> is undecided and whose
  creation time plus 7 days (604800000000 microseconds) is strictly earlier than now:
  the table it leaves holds the other matches, and its journal entries are the deletions
  of those. For the whole pass, a match survives exactly when it is not declined, not
  stale in this sense, and not (agreed by both and older than 28 days).
\<close>

theorem clean_deletes_unapproved_matches:
  assumes "\<forall>ev. \<not> fails e ev" and "distinct (map match_id (match_table w))"
    and "timestamps_in_range w"
  shows "clean_unapproved_matches e now w =
           Done (w\<lparr>match_table :=
                    filter (\<lambda>x. \<not> (new_agrees x = None
                                  \<or> (old_agrees x = None \<and> match_created_ts x + 604800000000 < now)))
                      (match_table w),
                  journal := journal w @
                    map (\<lambda>x. MatchDeleted (match_id x))
                      (filter (\<lambda>x. new_agrees x = None
                                  \<or> (old_agrees x = None \<and> match_created_ts x + 604800000000 < now))
                        (match_table w))\<rparr>)
     \<and> (\<exists>w'. clean e w = Done w' \<and>
           match_table w' =
             filter (\<lambda>x. \<not> (new_agrees x = Some False \<or> old_agrees x = Some False)
                       \<and> \<not> (new_agrees x = None
                            \<or> (old_agrees x = None \<and> match_created_ts x + 604800000000 < clock w))
                       \<and> \<not> (new_agrees x = Some True \<and> old_agrees x = Some True
                            \<and> match_created_ts x + 2419200000000 < clock w))
               (match_table w))"
proof -
  have nf: "\<And>ev. \<not> fails e ev" using assms(1) by simp
  have p7: "unapproved_expired now x =
      Inr (new_agrees x = None
           \<or> (old_agrees x = None \<and> match_created_ts x + 604800000000 < now))"
    if "x \<in> set (match_table w)" for x
    using in_range_matches [OF assms(3) that]
    by (simp add: unapproved_expired_in_range timedelta_days_def)
  have sweep: "clean_unapproved_matches e now w =
           Done (w\<lparr>match_table :=
                    filter (\<lambda>x. \<not> (new_agrees x = None
                                  \<or> (old_agrees x = None \<and> match_created_ts x + 604800000000 < now)))
                      (match_table w),
                  journal := journal w @
                    map (\<lambda>x. MatchDeleted (match_id x))
                      (filter (\<lambda>x. new_agrees x = None
                                  \<or> (old_agrees x = None \<and> match_created_ts x + 604800000000 < now))
                        (match_table w))\<rparr>)"
    unfolding clean_unapproved_matches_def
    by (rule match_sweep [where q = "\<lambda>x. new_agrees x = None
             \<or> (old_agrees x = None \<and> match_created_ts x + 604800000000 < now)",
          OF nf assms(2) p7])
  have others: "declined x = (new_agrees x = Some False \<or> old_agrees x = Some False)" for x
    by (simp add: declined_def)
  show ?thesis
    using sweep clean_match_table [OF nf assms(2,3)]
    by (simp add: others timedelta_days_def)
qed

theorem clean_deletes_unapproved_matches_witness:
  "(\<exists>w'. clean_unapproved_matches example_env 3000000000000 cleanup_world = Done w'
        \<and> match_table w' = [match_6d23h]
        \<and> journal w' = [MatchDeleted 2, MatchDeleted 3])
   \<and> (\<exists>w'. clean example_env cleanup_world = Done w' \<and> match_table w' = [match_6d23h])"
proof -
  have nf: "\<forall>ev. \<not> fails example_env ev"
    by (simp add: example_env_def)
  have fields:
    "match_id match_6d23h = 1" "new_agrees match_6d23h = Some True"
    "old_agrees match_6d23h = None" "match_created_ts match_6d23h = 2398800000000"
    "match_id match_7d1h = 2" "new_agrees match_7d1h = Some True"
    "old_agrees match_7d1h = None" "match_created_ts match_7d1h = 2391600000000"
    "match_id match_new_undecided = 3" "new_agrees match_new_undecided = None"
    "match_created_ts match_new_undecided = 3000000000000"
    by (simp_all add: match_6d23h_def match_7d1h_def match_new_undecided_def mk_match_def)
  have tables: "match_table cleanup_world = [match_6d23h, match_7d1h, match_new_undecided]"
    "journal cleanup_world = []" "clock cleanup_world = 3000000000000"
    by (simp_all add: cleanup_world_def)
  have d: "distinct (map match_id (match_table cleanup_world))"
    by (simp add: tables fields)
  have r: "timestamps_in_range cleanup_world"
    by (simp add: timestamps_in_range_def tables fields cleanup_world_def offer_A_def
          offer_young_def offer_overdue_def mk_offer_def timedelta_days_def datetime_max_def)
  show ?thesis
    using clean_deletes_unapproved_matches [OF nf d r, of 3000000000000]
    by (simp add: tables fields del: not_None_eq)
qed

section \<open>Facts about the example data\<close>

lemma offer_fields:
  "offer_id offer_A = 1" "email offer_A = ''x''" "created_ts offer_A = 0"
  "confirmed offer_A"
  "offer_id offer_late = 7" "email offer_late = ''late''"
  "created_ts offer_late = 345600000000" "confirmed offer_late"
  "charity offer_A = \<lparr>charity_ident = 1, charity_name = ''charity''\<rparr>"
  "charity offer_B = \<lparr>charity_ident = 2, charity_name = ''charity''\<rparr>"
  "country_ident (country offer_A) = 1" "country_ident (country offer_B) = 2"
  by (simp_all add: offer_A_def offer_B_def offer_late_def mk_offer_def)

lemma match_agreed_fields:
  "match_id match_agreed = 7" "new_offer_id match_agreed = 7" "old_offer_id match_agreed = 1"
  "new_agrees match_agreed = Some True" "old_agrees match_agreed = Some True"
  by (simp_all add: match_agreed_def mk_match_def)

lemma deal_world_fields:
  "offer_table deal_world = [offer_A, offer_late]" "match_table deal_world = [match_agreed]"
  "journal deal_world = []"
  by (simp_all add: deal_world_def)

lemma example_env_fields:
  "fails example_env ev = False" "fails failing_delete_env ev = (ev = MatchDeleted 7)"
  "by_charity_and_country_id example_env c k = None"
  "secret_source example_env n = ''token''"
  by (simp_all add: example_env_def failing_delete_env_def)

lemma deal_world_offers:
  "match_old_offer deal_world match_agreed = Some offer_A"
  "match_new_offer deal_world match_agreed = Some offer_late"
  by (simp_all add: match_old_offer_def match_new_offer_def offer_by_id_def deal_world_fields
        match_agreed_fields offer_fields)

lemma cleanup_fields:
  "offer_id offer_young = 5" "confirmed offer_young = False" "created_ts offer_young = 2827201000000"
  "offer_id offer_overdue = 6" "confirmed offer_overdue = False"
  "created_ts offer_overdue = 2827199000000"
  "match_id match_6d23h = 1" "new_agrees match_6d23h = Some True"
  "old_agrees match_6d23h = None" "match_created_ts match_6d23h = 2398800000000"
  "match_id match_7d1h = 2" "new_agrees match_7d1h = Some True"
  "old_agrees match_7d1h = None" "match_created_ts match_7d1h = 2391600000000"
  "match_id match_new_undecided = 3" "new_agrees match_new_undecided = None"
  "old_agrees match_new_undecided = Some True"
  by (simp_all add: offer_young_def offer_overdue_def mk_offer_def
        match_6d23h_def match_7d1h_def match_new_undecided_def mk_match_def)


section \<open>Properties of the notifications\<close>


text \<open>
  Claim C9. In every deal mail, if the lookup of localized instructions behind a field
  returns no record, the field is the fixed text
  \<^verbatim>\<open>Sorry, there are no instructions available (yet).\<close>, and the send proceeds: it
  hands the mail to the mail collaborator whatever the lookups returned, and completes
  unless the mail collaborator itself fails.
\<close>

theorem deal_mail_placeholder:
  "(by_charity_and_country_id e (charity_ident (charity new_offer))
        (country_ident (country new_offer)) = None \<longrightarrow>
      map_of (replacements (deal_mail e old_offer new_offer)) ''{%OLD_INSTRUCTIONS%}''
        = Some (Text ''Sorry, there are no instructions available (yet).''))
   \<and> (by_charity_and_country_id e (charity_ident (charity old_offer))
        (country_ident (country new_offer)) = None \<longrightarrow>
      map_of (replacements (deal_mail e old_offer new_offer)) ''{%NEW_INSTRUCTIONS%}''
        = Some (Text ''Sorry, there are no instructions available (yet).''))
   \<and> (\<not> fails e (MailSent (deal_mail e old_offer new_offer)) \<longrightarrow>
      send_mail_about_deal e old_offer new_offer w =
        Done (w\<lparr>journal := journal w @ [MailSent (deal_mail e old_offer new_offer)]\<rparr>))"
  by (simp add: deal_mail_def deal_replacements_def old_instructions_def new_instructions_def
        no_instructions_def send_mail_about_deal_def perform_def)

theorem deal_mail_placeholder_witness:
  "map_of (replacements (deal_mail example_env offer_A offer_late)) ''{%OLD_INSTRUCTIONS%}''
     = Some (Text ''Sorry, there are no instructions available (yet).'')
   \<and> map_of (replacements (deal_mail example_env offer_A offer_late)) ''{%NEW_INSTRUCTIONS%}''
     = Some (Text ''Sorry, there are no instructions available (yet).'')
   \<and> send_mail_about_deal example_env offer_A offer_late deal_world =
        Done (deal_world\<lparr>journal := [MailSent (deal_mail example_env offer_A offer_late)]\<rparr>)"
  using deal_mail_placeholder [of example_env offer_late offer_A deal_world]
  by (simp add: example_env_fields deal_world_fields)

text \<open>
  Claim C10. In every deal mail, the old party's instructions are looked up by the new
  offer's charity identifier and the new offer's country identifier, and the new
  party's instructions by the old offer's charity identifier and the new offer's country
  identifier; neither lookup reads the old offer's country identifier: changing it
  changes neither instructions text.
\<close>

theorem deal_instructions_lookups:
  "map_of (replacements (deal_mail e old_offer new_offer)) ''{%OLD_INSTRUCTIONS%}'' =
     Some (Text (case by_charity_and_country_id e (charity_ident (charity new_offer))
                        (country_ident (country new_offer)) of
                   Some tmp \<Rightarrow> instructions tmp
                 | None \<Rightarrow> ''Sorry, there are no instructions available (yet).''))
   \<and> map_of (replacements (deal_mail e old_offer new_offer)) ''{%NEW_INSTRUCTIONS%}'' =
     Some (Text (case by_charity_and_country_id e (charity_ident (charity old_offer))
                        (country_ident (country new_offer)) of
                   Some tmp \<Rightarrow> instructions tmp
                 | None \<Rightarrow> ''Sorry, there are no instructions available (yet).''))
   \<and> (\<forall>k j. old_instructions e
               (old_offer\<lparr>country_id := j, country := (country old_offer)\<lparr>country_ident := k\<rparr>\<rparr>)
               new_offer
             = old_instructions e old_offer new_offer
           \<and> new_instructions e
               (old_offer\<lparr>country_id := j, country := (country old_offer)\<lparr>country_ident := k\<rparr>\<rparr>)
               new_offer
             = new_instructions e old_offer new_offer)"
  by (simp add: deal_mail_def deal_replacements_def old_instructions_def new_instructions_def
        no_instructions_def split: option.split)

theorem deal_instructions_lookups_witness:
  "map_of (replacements (deal_mail instructions_env offer_A offer_B)) ''{%OLD_INSTRUCTIONS%}''
     = Some (Text ''charity 2 in country 2'')
   \<and> map_of (replacements (deal_mail instructions_env offer_A offer_B)) ''{%NEW_INSTRUCTIONS%}''
     = Some (Text ''charity 1 in country 2'')
   \<and> by_charity_and_country_id instructions_env 2 1 = None
   \<and> by_charity_and_country_id instructions_env 1 1 = None"
proof -
  have look: "by_charity_and_country_id instructions_env c k =
       (if c = 2 \<and> k = 2 then Some \<lparr>instructions = ''charity 2 in country 2''\<rparr>
              else if c = 1 \<and> k = 2 then Some \<lparr>instructions = ''charity 1 in country 2''\<rparr>
              else None)" for c k
    by (simp add: instructions_env_def example_env_def)
  show ?thesis
    using deal_instructions_lookups [of instructions_env offer_A offer_B]
    by (simp add: look offer_fields)
qed

section \<open>Properties of propose\<close>




section \<open>Properties of finalize\<close>

lemma approved_iff: "approved x \<longleftrightarrow> new_agrees x = Some True \<and> old_agrees x = Some True"
  by (cases "new_agrees x"; cases "old_agrees x") (auto simp: approved_def py_and_def)

text \<open>
  Claim C8. The finalize loop runs its body on the matches with both flags agreed, in
  table order. For every match processed by \<^verbatim>\<open>process_approved_matches\<close> outside a dry
  run whose two offers exist, when sending the mail does not fail: exactly one mail is
  sent, the deal mail addressed to the old and the new party's addresses together, and
  it is sent before the match row is deleted. If the deletion fails, the run ends with
  the storage error in a world whose journal already holds the sent mail and whose match
  table is untouched; otherwise the journal holds the mail and then the deletion.
\<close>

theorem process_approved_match_sends_then_deletes:
  assumes "match_old_offer w m = Some old_offer"
    and "match_new_offer w m = Some new_offer"
    and "\<not> fails e (MailSent (deal_mail e old_offer new_offer))"
  shows "process_approved_match e False m w =
      (if fails e (MatchDeleted (match_id m))
       then Raised StorageError
              (w\<lparr>journal := journal w @ [MailSent (deal_mail e old_offer new_offer)]\<rparr>)
       else Done
              (w\<lparr>match_table := filter (\<lambda>x. match_id x \<noteq> match_id m) (match_table w),
                 journal := journal w @
                   [MailSent (deal_mail e old_offer new_offer), MatchDeleted (match_id m)]\<rparr>))
     \<and> mail_to (deal_mail e old_offer new_offer) = [email old_offer, email new_offer]
     \<and> subject (deal_mail e old_offer new_offer) = ''Here is your match!''
     \<and> process_approved_matches e False w =
         for_each (process_approved_match e False)
           (filter (\<lambda>x. new_agrees x = Some True \<and> old_agrees x = Some True) (match_table w)) w"
proof -
  have "approved = (\<lambda>x. new_agrees x = Some True \<and> old_agrees x = Some True)"
    by (rule ext) (rule approved_iff)
  then have "process_approved_matches e False w =
         for_each (process_approved_match e False)
           (filter (\<lambda>x. new_agrees x = Some True \<and> old_agrees x = Some True) (match_table w)) w"
    by (simp add: process_approved_matches_def match_get_all_def)
  then show ?thesis
    using assms
    by (simp add: process_approved_match_def send_mail_about_deal_def match_delete_def
          perform_def deal_mail_def)
qed

theorem process_approved_match_sends_then_deletes_witness:
  "process_approved_match example_env False match_agreed deal_world =
     Done (deal_world\<lparr>match_table := [],
             journal := [MailSent (deal_mail example_env offer_A offer_late), MatchDeleted 7]\<rparr>)
   \<and> process_approved_match failing_delete_env False match_agreed deal_world =
     Raised StorageError
       (deal_world\<lparr>journal := [MailSent (deal_mail failing_delete_env offer_A offer_late)]\<rparr>)
   \<and> mail_to (deal_mail example_env offer_A offer_late) = [''x'', ''late'']"
proof -
  have ok: "\<not> fails example_env (MailSent (deal_mail example_env offer_A offer_late))"
    and ok': "\<not> fails failing_delete_env (MailSent (deal_mail failing_delete_env offer_A offer_late))"
    by (simp_all add: example_env_fields)
  show ?thesis
    using process_approved_match_sends_then_deletes [OF deal_world_offers ok]
          process_approved_match_sends_then_deletes [OF deal_world_offers ok']
    by (simp add: example_env_fields match_agreed_fields deal_world_fields offer_fields)
qed

lemma then_do_Done: "then_do x f = Done w' \<Longrightarrow> \<exists>w1. x = Done w1 \<and> f w1 = Done w'"
  by (cases x) simp_all

lemma process_approved_match_Done:
  assumes "process_approved_match e False m w = Done w1"
  shows "match_table w1 = filter (\<lambda>x. match_id x \<noteq> match_id m) (match_table w)"
proof -
  from assms obtain old_offer new_offer where
    run: "then_do (send_mail_about_deal e old_offer new_offer w) (match_delete e m) = Done w1"
    by (auto simp: process_approved_match_def split: option.splits)
  then obtain w0 where w0: "send_mail_about_deal e old_offer new_offer w = Done w0"
      "match_delete e m w0 = Done w1"
    using then_do_Done by blast
  from w0(1) have "match_table w0 = match_table w"
    by (auto simp: send_mail_about_deal_def perform_def split: if_splits)
  moreover from w0(2) have "match_table w1 = filter (\<lambda>x. match_id x \<noteq> match_id m) (match_table w0)"
    by (auto simp: match_delete_def perform_def split: if_splits)
  ultimately show ?thesis by simp
qed

lemma approved_loop_Done:
  "for_each (process_approved_match e False) ms w = Done w' \<Longrightarrow>
   match_table w' = filter (\<lambda>x. match_id x \<notin> match_id ` set ms) (match_table w)"
proof (induction ms arbitrary: w)
  case Nil
  then show ?case by simp
next
  case (Cons m ms)
  from Cons.prems obtain w1 where w1: "process_approved_match e False m w = Done w1"
      "for_each (process_approved_match e False) ms w1 = Done w'"
    using then_do_Done by fastforce
  have "match_table w' = filter (\<lambda>x. match_id x \<notin> match_id ` set ms) (match_table w1)"
    using w1(2) by (rule Cons.IH)
  also have "match_table w1 = filter (\<lambda>x. match_id x \<noteq> match_id m) (match_table w)"
    using w1(1) by (rule process_approved_match_Done)
  finally show ?case
    by (simp add: conj_commute)
qed

lemma process_approved_match_ok:
  assumes nf: "\<And>ev. \<not> fails e ev"
    and "match_old_offer w m \<noteq> None" and "match_new_offer w m \<noteq> None"
  shows "\<exists>w1. process_approved_match e False m w = Done w1 \<and> offer_table w1 = offer_table w"
  using assms(2,3)
  by (auto simp: process_approved_match_def send_mail_about_deal_def match_delete_def
        perform_ok [OF nf])

lemma approved_loop_completes:
  assumes nf: "\<And>ev. \<not> fails e ev"
  shows "\<forall>m \<in> set ms. match_old_offer w m \<noteq> None \<and> match_new_offer w m \<noteq> None \<Longrightarrow>
         \<exists>w'. for_each (process_approved_match e False) ms w = Done w'"
proof (induction ms arbitrary: w)
  case Nil
  show ?case by simp
next
  case (Cons m ms)
  then obtain w1 where w1: "process_approved_match e False m w = Done w1"
      "offer_table w1 = offer_table w"
    using process_approved_match_ok [OF nf, of w m] by auto
  have "\<forall>m \<in> set ms. match_old_offer w1 m \<noteq> None \<and> match_new_offer w1 m \<noteq> None"
    using Cons.prems w1(2) by (simp add: match_old_offer_def match_new_offer_def offer_by_id_def)
  from Cons.IH [OF this] show ?case
    by (simp add: w1)
qed

lemma process_approved_matches_completes:
  assumes "\<And>ev. \<not> fails e ev"
    and "\<forall>m \<in> set (match_table w). match_old_offer w m \<noteq> None \<and> match_new_offer w m \<noteq> None"
  shows "\<exists>w'. process_approved_matches e False w = Done w'"
  unfolding process_approved_matches_def
  using assms(2) by (intro approved_loop_completes [OF assms(1)]) (simp add: match_get_all_def)

text \<open>
  Claim C7. After a run of \<^verbatim>\<open>process_approved_matches\<close> outside a dry run that
  completed, every match that had both flags agreed has been deleted, no match of the
  table has both flags agreed, and an immediately repeated run selects no match and
  leaves the world as it is: it sends no mail and deletes nothing.
\<close>

theorem process_approved_matches_idempotent:
  assumes "process_approved_matches e False w = Done w'"
  shows "match_get_all approved w' = []
     \<and> process_approved_matches e False w' = Done w'
     \<and> (\<forall>m \<in> set (match_get_all approved w). m \<notin> set (match_table w'))"
proof -
  let ?ms = "match_get_all approved w"
  have tbl: "match_table w' = filter (\<lambda>x. match_id x \<notin> match_id ` set ?ms) (match_table w)"
    using assms unfolding process_approved_matches_def by (rule approved_loop_Done)
  have gone: "m \<notin> set (match_table w')" if "m \<in> set ?ms" for m
    using that unfolding tbl by auto
  have none: "match_get_all approved w' = []"
    unfolding match_get_all_def tbl by (auto simp: filter_empty_conv match_get_all_def)
  then have "process_approved_matches e False w' = Done w'"
    by (simp add: process_approved_matches_def)
  with none gone show ?thesis by blast
qed

theorem process_approved_matches_idempotent_witness:
  "process_approved_matches example_env False deal_world =
     Done (deal_world\<lparr>match_table := [],
             journal := [MailSent (deal_mail example_env offer_A offer_late), MatchDeleted 7]\<rparr>)
   \<and> process_approved_matches example_env False
       (deal_world\<lparr>match_table := [],
             journal := [MailSent (deal_mail example_env offer_A offer_late), MatchDeleted 7]\<rparr>) =
     Done (deal_world\<lparr>match_table := [],
             journal := [MailSent (deal_mail example_env offer_A offer_late), MatchDeleted 7]\<rparr>)
   \<and> match_agreed \<in> set (match_get_all approved deal_world)"
proof -
  have sel: "match_get_all approved deal_world = [match_agreed]"
    by (simp add: match_get_all_def approved_def py_and_def deal_world_fields match_agreed_fields)
  have first: "process_approved_matches example_env False deal_world =
     Done (deal_world\<lparr>match_table := [],
             journal := [MailSent (deal_mail example_env offer_A offer_late), MatchDeleted 7]\<rparr>)"
    by (simp add: process_approved_matches_def sel process_approved_match_def deal_world_offers
          send_mail_about_deal_def match_delete_def perform_def example_env_fields
          deal_world_fields match_agreed_fields)
  show ?thesis
    using process_approved_matches_idempotent [OF first] first sel by simp
qed

section \<open>The dry run\<close>

lemma for_each_skip: "(\<And>x w. body x w = Done w) \<Longrightarrow> for_each body xs w = Done w"
  by (induction xs) simp_all

lemma then_do_skip: "then_do x (\<lambda>w. Done w) = x"
  by (cases x) simp_all

lemma dry_run_propose: "process_found_matches e True ps w = Done w"
  unfolding process_found_matches_def
  by (rule for_each_skip) (simp add: process_found_match_def split: prod.split)

lemma dry_run_finalize: "process_approved_matches e True w = Done w"
  unfolding process_approved_matches_def
  by (rule for_each_skip) (simp add: process_approved_match_def)

lemma dry_run_is_clean: "main e False w = clean e w"
proof -
  have "process_approved_matches e True = (\<lambda>w. Done w)"
    by (rule ext) (rule dry_run_finalize)
  then show ?thesis
    by (simp add: main_def dry_run_propose then_do_skip)
qed

text \<open>
  Claim C1, evaluated. A dry run (\<^verbatim>\<open>main\<close> without \<^verbatim>\<open>--doit\<close>) of the cleanup
  world deletes the overdue unconfirmed offer and the two stale matches: the cleanup pass
  does not consult the dry-run flag, while propose and finalize do.
\<close>

theorem main_dry_run_deletes:
  "main example_env False cleanup_world =
     Done (cleanup_world\<lparr>offer_table := [offer_A, offer_young],
             match_table := [match_6d23h],
             journal := [OfferDeleted 6, MatchDeleted 2, MatchDeleted 3]\<rparr>)"
  unfolding dry_run_is_clean
  by (simp add: clean_def clean_unconfirmed_offers_def clean_declined_matches_def
        clean_unapproved_matches_def clean_approved_matches_def
        offer_get_all_def match_get_all_def offer_delete_def match_delete_def perform_def
        match_get_all_raising_def older_than_def datetime_add_def datetime_max_def
        unconfirmed_expired_def declined_def unapproved_expired_def approved_expired_def
        timedelta_days_def example_env_fields cleanup_world_def cleanup_fields offer_fields
        del: not_None_eq)

end
